theory Spec2Isabelle
  imports
    Main
    "HOL-Library.Char_ord"
    "HOL-Library.List_Lexorder"
    "HOL-Library.Multiset"
    "HOL-Library.AList"
begin

section \<open>Python strings\<close>

text \<open>
  A Python \<open>str\<close> is modelled as a \<^typ>\<open>string\<close>: the list of its code points, each
  below 256. Comparison of strings is Python's: lexicographic on code points
  (\<open>Char_ord\<close> and \<open>List_Lexorder\<close>), a proper prefix being smaller.
\<close>

definition py_isspace :: "char \<Rightarrow> bool" where
  \<comment> \<open>\<open>str.isspace\<close> on one code point below 256\<close>
  "py_isspace c =
     (of_char c \<in> set [9, 10, 11, 12, 13, 28, 29, 30, 31, 32, 133, 160 :: nat])"

definition py_strip :: "string \<Rightarrow> string" where
  \<comment> \<open>\<open>s.strip()\<close>: leading and trailing whitespace removed\<close>
  "py_strip s = rev (dropWhile py_isspace (rev (dropWhile py_isspace s)))"

definition py_lower_char :: "char \<Rightarrow> char" where
  "py_lower_char c =
     (let n = of_char c :: nat
      in if (65 \<le> n \<and> n \<le> 90) \<or> (192 \<le> n \<and> n \<le> 214) \<or> (216 \<le> n \<and> n \<le> 222)
         then char_of (n + 32) else c)"

definition py_lower :: "string \<Rightarrow> string" where
  \<comment> \<open>\<open>s.lower()\<close>\<close>
  "py_lower s = map py_lower_char s"

definition py_startswith :: "string \<Rightarrow> string \<Rightarrow> bool" where
  \<comment> \<open>\<open>s.startswith(lit)\<close>\<close>
  "py_startswith s lit = (take (length lit) s = lit)"

fun py_replace_1 :: "string \<Rightarrow> string \<Rightarrow> string \<Rightarrow> string" where
  \<comment> \<open>\<open>s.replace(old, new, 1)\<close>: the leftmost occurrence of \<open>old\<close> is replaced\<close>
  "py_replace_1 old new [] = (if old = [] then new else [])"
| "py_replace_1 old new (c # cs) =
     (if py_startswith (c # cs) old then new @ drop (length old) (c # cs)
      else c # py_replace_1 old new cs)"

function py_split :: "char \<Rightarrow> string \<Rightarrow> string list" where
  \<comment> \<open>\<open>s.split(sep)\<close> for a separator of one character\<close>
  "py_split sep s =
     (case dropWhile (\<lambda>c. c \<noteq> sep) s of
        [] \<Rightarrow> [s]
      | _ # rest \<Rightarrow> takeWhile (\<lambda>c. c \<noteq> sep) s # py_split sep rest)"
  by pat_completeness auto
termination
proof (relation "measure (\<lambda>(sep, s). length s)")
  show "wf (measure (\<lambda>(sep, s). length s))" by simp
next
  fix sep :: char and s :: string and x rest
  assume "dropWhile (\<lambda>c. c \<noteq> sep) s = x # rest"
  then have "length (x # rest) \<le> length s"
    by (metis length_dropWhile_le)
  then show "((sep, rest), (sep, s)) \<in> measure (\<lambda>(sep, s). length s)" by simp
qed

function file_lines :: "string \<Rightarrow> string list" where
  \<comment> \<open>\<open>for line in f\<close> on the decoded text of a file (newlines already translated to
     code point 10): each line keeps its terminator, the last one may have none\<close>
  "file_lines s =
     (if s = [] then []
      else case dropWhile (\<lambda>c. c \<noteq> CHR 0x0A) s of
             [] \<Rightarrow> [s]
           | _ # rest \<Rightarrow> (takeWhile (\<lambda>c. c \<noteq> CHR 0x0A) s @ [CHR 0x0A]) # file_lines rest)"
  by pat_completeness auto
termination
proof (relation "measure length")
  show "wf (measure length)" by simp
next
  fix s :: string and x rest
  assume "dropWhile (\<lambda>c. c \<noteq> CHR 0x0A) s = x # rest"
  then have "length (x # rest) \<le> length s"
    by (metis length_dropWhile_le)
  then show "(rest, s) \<in> measure length" by simp
qed

declare py_split.simps [simp del]
declare file_lines.simps [simp del]


section \<open>Dirty-set resolver (get_final_dirty_data_prefix.py, get_final_dirty_backup_prefix.py)\<close>

text \<open>
  \<open>load_non_terminated_uuids\<close> is the same function in both scripts. Its argument here
  is the text of the allow-list file; opening and decoding the file are outside the model.
\<close>

fun load_uuids_loop :: "string list \<Rightarrow> string set \<Rightarrow> string set" where
  "load_uuids_loop [] uuids = uuids"
| "load_uuids_loop (raw # rest) uuids =
     (let line = py_strip raw
      in if line = [] then load_uuids_loop rest uuids
         else let uuid = (if py_startswith line ''ch-s3-''
                          then py_replace_1 ''ch-s3-'' '''' line else line)
              in load_uuids_loop rest (insert uuid uuids))"

definition load_non_terminated_uuids :: "string \<Rightarrow> string set" where
  "load_non_terminated_uuids content = load_uuids_loop (file_lines content) {}"

definition extract_uuid_from_path :: "string \<Rightarrow> string" where
  "extract_uuid_from_path full_path =
     (let parts = py_split CHR ''/'' full_path
      in if length parts \<ge> 2 then last parts else full_path)"

definition extract_next_level_uuid_from_path :: "string \<Rightarrow> string" where
  "extract_next_level_uuid_from_path full_path =
     (let parts = py_split CHR ''/'' full_path
      in if length parts \<ge> 2 then last parts else full_path)"

fun find_dirty_data_loop :: "string list \<Rightarrow> string set \<Rightarrow> string list \<Rightarrow> string list" where
  "find_dirty_data_loop [] non_terminated_uuids dirty_paths = dirty_paths"
| "find_dirty_data_loop (full_path # rest) non_terminated_uuids dirty_paths =
     (let uuid = extract_uuid_from_path full_path
      in find_dirty_data_loop rest non_terminated_uuids
           (if uuid \<notin> non_terminated_uuids then dirty_paths @ [full_path] else dirty_paths))"

definition find_dirty_data_prefixes ::
  "string list \<Rightarrow> string set \<Rightarrow> string list \<times> (string \<times> int) list" where
  \<comment> \<open>the second component is the dictionary \<open>dirty_sizes\<close>, returned empty\<close>
  "find_dirty_data_prefixes data_prefixes non_terminated_uuids =
     (find_dirty_data_loop data_prefixes non_terminated_uuids [], [])"

fun find_dirty_backup_loop :: "string list \<Rightarrow> string set \<Rightarrow> string list \<Rightarrow> string list" where
  "find_dirty_backup_loop [] non_terminated_uuids dirty_paths = dirty_paths"
| "find_dirty_backup_loop (full_path # rest) non_terminated_uuids dirty_paths =
     (let next_level_uuid = extract_next_level_uuid_from_path full_path
      in find_dirty_backup_loop rest non_terminated_uuids
           (if next_level_uuid \<notin> non_terminated_uuids then dirty_paths @ [full_path]
            else dirty_paths))"

definition find_dirty_backup_prefixes ::
  "string list \<Rightarrow> string set \<Rightarrow> string list \<times> (string \<times> int) list" where
  "find_dirty_backup_prefixes backup_prefixes non_terminated_uuids =
     (find_dirty_backup_loop backup_prefixes non_terminated_uuids [], [])"

text \<open>
  The list that \<open>main\<close> stores under the key \<open>dirty_paths\<close> of its output:
  \<open>sorted(dirty_paths)\<close>. Python's \<open>sorted\<close> is a stable sort, and so is \<^const>\<open>sort\<close>;
  on strings, which are equal whenever neither is smaller, every sort returns the same
  list. The size dictionary and the summary of the output are not modelled.
\<close>

definition data_main_dirty_paths :: "string list \<Rightarrow> string set \<Rightarrow> string list" where
  "data_main_dirty_paths data_prefixes non_terminated_uuids =
     (let (dirty_paths, dirty_sizes) = find_dirty_data_prefixes data_prefixes non_terminated_uuids;
          sorted_dirty_paths = sort dirty_paths
      in sorted_dirty_paths)"

definition backup_main_dirty_paths :: "string list \<Rightarrow> string set \<Rightarrow> string list" where
  "backup_main_dirty_paths backup_prefixes non_terminated_uuids =
     (let (dirty_paths, dirty_sizes) =
            find_dirty_backup_prefixes backup_prefixes non_terminated_uuids;
          sorted_dirty_paths = sort dirty_paths
      in sorted_dirty_paths)"


section \<open>Object store\<close>

text \<open>
  The store client is a parameter of the model. A call either returns a response or
  raises: \<open>ClientError\<close> is botocore's exception, \<open>OtherException\<close> any other
  \<open>Exception\<close>; both carry the text of the exception. Listing reads the store and
  cannot change it; a bulk delete returns the store it leaves behind. A response is a
  dictionary: an optional field is \<open>None\<close> when its key is absent.
\<close>

datatype 'a outcome = Returned 'a | ClientError string | OtherException string

record list_params =
  Bucket :: string
  Prefix :: string
  Delimiter :: "string option"
  ContinuationToken :: "string option"

record s3_object =
  Key :: string
  Size :: "int option"

record list_response =
  CommonPrefixes :: "string list option"
  Contents :: "s3_object list option"
  NextContinuationToken :: "string option"

record delete_error =
  ErrKey :: string
  Code :: string
  Message :: string

record delete_response =
  Deleted :: "string list option"
  Errors :: "delete_error list option"

record 'st s3_client =
  list_objects_v2 :: "'st \<Rightarrow> list_params \<Rightarrow> list_response outcome"
  delete_objects :: "'st \<Rightarrow> string \<Rightarrow> string list \<Rightarrow> delete_response outcome \<times> 'st"

text \<open>
  What a run does is recorded in order: every call to the store, every call of
  \<open>input\<close> (with the line it read, \<open>None\<close> at end of input), the creation of the
  client, the writing of the log file, and the printed messages that tell the branches of
  the scripts apart (banners, summaries and progress bars are left out).
\<close>

datatype event =
    ListCall list_params
  | DeleteCall string "string list" "delete_response outcome"
  | InputCall "string option"
  | ClientCreated int
  | LogWritten string
  | Printed string

record 'st world =
  store :: 'st
  trace :: "event list"

definition emit :: "event \<Rightarrow> 'st world \<Rightarrow> 'st world" where
  "emit e w = w\<lparr>trace := trace w @ [e]\<rparr>"

definition py_truthy :: "string option \<Rightarrow> bool" where
  \<comment> \<open>truth value of a token that is \<open>None\<close> or a string\<close>
  "py_truthy t = (case t of None \<Rightarrow> False | Some s \<Rightarrow> s \<noteq> [])"

definition listing_params ::
  "string \<Rightarrow> string \<Rightarrow> string option \<Rightarrow> string option \<Rightarrow> list_params" where
  \<comment> \<open>the \<open>params\<close> of a listing call: the continuation token is passed when it is true\<close>
  "listing_params bucket_name prefix delimiter continuation_token =
     \<lparr>Bucket = bucket_name, Prefix = prefix, Delimiter = delimiter,
      ContinuationToken = (if py_truthy continuation_token then continuation_token else None)\<rparr>"

definition raised :: "'a outcome \<Rightarrow> bool" where
  "raised out = (case out of Returned r \<Rightarrow> False | ClientError e \<Rightarrow> True
                 | OtherException e \<Rightarrow> True)"

definition is_delete_call :: "event \<Rightarrow> bool" where
  "is_delete_call ev = (case ev of DeleteCall b ks out \<Rightarrow> True | _ \<Rightarrow> False)"

definition is_store_call :: "event \<Rightarrow> bool" where
  "is_store_call ev =
     (case ev of ListCall ps \<Rightarrow> True | DeleteCall b ks out \<Rightarrow> True | _ \<Rightarrow> False)"

definition py_endswith :: "string \<Rightarrow> string \<Rightarrow> bool" where
  "py_endswith s suffix =
     (length suffix \<le> length s \<and> drop (length s - length suffix) s = suffix)"

datatype py_error =
    TooManyKeys nat \<comment> \<open>\<open>ValueError("Too many keys for batch delete: n (max 1000)")\<close>\<close>
  | MaxWorkers \<comment> \<open>\<open>ValueError("max_workers must be greater than 0")\<close>, from the thread pool\<close>
  | EOFError \<comment> \<open>\<open>input()\<close> at end of input\<close>
  | TypeError \<comment> \<open>arithmetic or comparison on a value that is not a number\<close>
  | OverflowError \<comment> \<open>a number beyond the range of a float\<close>
  | OSError string \<comment> \<open>a file that cannot be opened or written\<close>
  | LibraryError string \<comment> \<open>any other exception of a library\<close>


section \<open>Listing (utils.py)\<close>

definition add_common_prefix :: "string \<Rightarrow> string \<Rightarrow> string set \<Rightarrow> string set" where
  \<comment> \<open>the body of the loop over \<open>response["CommonPrefixes"]\<close>\<close>
  "add_common_prefix prefix full_prefix next_level_prefixes =
     (let relative_prefix = drop (length prefix) full_prefix;
          relative_prefix =
            (if py_endswith relative_prefix ''/'' then butlast relative_prefix
             else relative_prefix)
      in if relative_prefix \<noteq> [] then insert relative_prefix next_level_prefixes
         else next_level_prefixes)"

text \<open>
  The \<open>while True\<close> loops of the listing functions end when the store stops handing out
  continuation tokens or a call raises; a store that always hands out a token keeps them
  running, which is the value \<open>None\<close> here.
\<close>

partial_function (option) list_next_level_loop ::
  "'st s3_client \<Rightarrow> string \<Rightarrow> string \<Rightarrow> string set \<Rightarrow> string option \<Rightarrow> 'st world
   \<Rightarrow> (string set \<times> 'st world) option"
where
  "list_next_level_loop c bucket_name prefix next_level_prefixes continuation_token w =
     (let params = listing_params bucket_name prefix (Some ''/'') continuation_token;
          w1 = emit (ListCall params) w
      in case list_objects_v2 c (store w) params of
           Returned response \<Rightarrow>
             (let next_level_prefixes =
                    (case CommonPrefixes response of
                       None \<Rightarrow> next_level_prefixes
                     | Some common_prefixes \<Rightarrow>
                         fold (add_common_prefix prefix) common_prefixes next_level_prefixes);
                  continuation_token = NextContinuationToken response
              in if \<not> py_truthy continuation_token then Some (next_level_prefixes, w1)
                 else list_next_level_loop c bucket_name prefix next_level_prefixes
                        continuation_token w1)
         | ClientError e \<Rightarrow>
             Some (next_level_prefixes,
                   emit (Printed (''Error listing prefixes under '' @ prefix @ '': '' @ e)) w1)
         | OtherException e \<Rightarrow>
             Some (next_level_prefixes,
                   emit (Printed (''Unexpected error listing '' @ prefix @ '': '' @ e)) w1))"

declare list_next_level_loop.simps [code]

definition list_next_level_prefixes ::
  "'st s3_client \<Rightarrow> string \<Rightarrow> string \<Rightarrow> 'st world \<Rightarrow> (string set \<times> 'st world) option" where
  "list_next_level_prefixes c bucket_name prefix w =
     list_next_level_loop c bucket_name prefix {} None w"

definition object_size :: "s3_object \<Rightarrow> int" where
  \<comment> \<open>\<open>obj.get("Size", 0)\<close>\<close>
  "object_size obj = (case Size obj of None \<Rightarrow> 0 | Some n \<Rightarrow> n)"

partial_function (option) sum_sizes_loop ::
  "'st s3_client \<Rightarrow> string \<Rightarrow> string \<Rightarrow> int \<Rightarrow> string option \<Rightarrow> 'st world
   \<Rightarrow> (int \<times> 'st world) option"
where
  "sum_sizes_loop c bucket_name prefix total_size continuation_token w =
     (let params = listing_params bucket_name prefix None continuation_token;
          w1 = emit (ListCall params) w
      in case list_objects_v2 c (store w) params of
           Returned response \<Rightarrow>
             (let total_size =
                    fold (\<lambda>obj total_size. total_size + object_size obj)
                      (case Contents response of None \<Rightarrow> [] | Some objs \<Rightarrow> objs) total_size;
                  continuation_token = NextContinuationToken response
              in if \<not> py_truthy continuation_token then Some (total_size, w1)
                 else sum_sizes_loop c bucket_name prefix total_size continuation_token w1)
         | ClientError e \<Rightarrow>
             Some (total_size,
                   emit (Printed (''Error counting objects under '' @ prefix @ '': '' @ e)) w1)
         | OtherException e \<Rightarrow>
             Some (total_size,
                   emit (Printed (''Unexpected error counting '' @ prefix @ '': '' @ e)) w1))"

declare sum_sizes_loop.simps [code]

definition sum_sizes_in_prefix ::
  "'st s3_client \<Rightarrow> string \<Rightarrow> string \<Rightarrow> 'st world \<Rightarrow> (int \<times> 'st world) option" where
  "sum_sizes_in_prefix c bucket_name prefix w =
     sum_sizes_loop c bucket_name prefix 0 None w"

text \<open>
  Modelled from the spec: \<open>list_all_objects\<close> is imported by delete_prefixes.py from
  utils, and utils.py does not define it. Section 4.4 of the specification describes it:
  ``exhaustively list all object keys under it (full pagination, same discipline as 4.2
  but collecting keys, not summing sizes)''. The model is therefore the loop of
  \<open>sum_sizes_in_prefix\<close> with the keys of each page appended to a list.
\<close>

partial_function (option) list_all_objects_loop ::
  "'st s3_client \<Rightarrow> string \<Rightarrow> string \<Rightarrow> string list \<Rightarrow> string option \<Rightarrow> 'st world
   \<Rightarrow> (string list \<times> 'st world) option"
where
  "list_all_objects_loop c bucket_name prefix object_keys continuation_token w =
     (let params = listing_params bucket_name prefix None continuation_token;
          w1 = emit (ListCall params) w
      in case list_objects_v2 c (store w) params of
           Returned response \<Rightarrow>
             (let object_keys =
                    object_keys @
                      map Key (case Contents response of None \<Rightarrow> [] | Some objs \<Rightarrow> objs);
                  continuation_token = NextContinuationToken response
              in if \<not> py_truthy continuation_token then Some (object_keys, w1)
                 else list_all_objects_loop c bucket_name prefix object_keys
                        continuation_token w1)
         | ClientError e \<Rightarrow>
             Some (object_keys,
                   emit (Printed (''Error listing objects under '' @ prefix @ '': '' @ e)) w1)
         | OtherException e \<Rightarrow>
             Some (object_keys,
                   emit (Printed (''Unexpected error listing '' @ prefix @ '': '' @ e)) w1))"

declare list_all_objects_loop.simps [code]

definition list_all_objects ::
  "'st s3_client \<Rightarrow> string \<Rightarrow> string \<Rightarrow> 'st world \<Rightarrow> (string list \<times> 'st world) option" where
  "list_all_objects c bucket_name prefix w =
     list_all_objects_loop c bucket_name prefix [] None w"


section \<open>Deletion engine (delete_prefixes.py)\<close>

definition format_delete_error :: "delete_error \<Rightarrow> string" where
  "format_delete_error error = ErrKey error @ '': '' @ Code error @ '' - '' @ Message error"

definition delete_call_result :: "delete_response outcome \<Rightarrow> nat \<times> string list" where
  \<comment> \<open>\<open>(deleted_count, errors)\<close> after the \<open>try\<close> block of \<open>delete_objects_batch\<close>, from
     what the call to the store did\<close>
  "delete_call_result out =
     (case out of
        Returned response \<Rightarrow>
          ((case Deleted response of None \<Rightarrow> 0 | Some deleted \<Rightarrow> length deleted),
           (case Errors response of None \<Rightarrow> [] | Some errs \<Rightarrow> map format_delete_error errs))
      | ClientError e \<Rightarrow> (0, [''ClientError: '' @ e])
      | OtherException e \<Rightarrow> (0, [''Unexpected error: '' @ e]))"

definition delete_objects_batch ::
  "'st s3_client \<Rightarrow> string \<Rightarrow> string list \<Rightarrow> 'st world
   \<Rightarrow> (py_error + nat \<times> string list) \<times> 'st world" where
  "delete_objects_batch c bucket_name keys w =
     (if keys = [] then (Inr (0, []), w)
      else if length keys > 1000 then (Inl (TooManyKeys (length keys)), w)
      else let (out, st) = delete_objects c (store w) bucket_name keys;
               w1 = emit (DeleteCall bucket_name keys out) (w\<lparr>store := st\<rparr>)
           in (Inr (delete_call_result out), w1))"

function py_range :: "nat \<Rightarrow> nat \<Rightarrow> nat \<Rightarrow> nat list" where
  \<comment> \<open>\<open>range(start, stop, step)\<close> on naturals; the only step used is the batch size\<close>
  "py_range start stop step =
     (if step = 0 \<or> stop \<le> start then [] else start # py_range (start + step) stop step)"
  by pat_completeness auto
termination
  by (relation "measure (\<lambda>(start, stop, step). stop - start)") auto

declare py_range.simps [simp del]

fun delete_batches ::
  "'st s3_client \<Rightarrow> string \<Rightarrow> string list \<Rightarrow> nat \<Rightarrow> nat list \<Rightarrow> nat \<Rightarrow> string list \<Rightarrow> 'st world
   \<Rightarrow> (py_error + nat \<times> string list) \<times> 'st world" where
  \<comment> \<open>the \<open>for i in range(0, total_objects, batch_size)\<close> loop of \<open>delete_prefix\<close>\<close>
  "delete_batches c bucket_name object_keys batch_size [] deleted_count all_errors w =
     (Inr (deleted_count, all_errors), w)"
| "delete_batches c bucket_name object_keys batch_size (i # rest) deleted_count all_errors w =
     (let batch = take batch_size (drop i object_keys)
      in case delete_objects_batch c bucket_name batch w of
           (Inl e, w1) \<Rightarrow> (Inl e, w1)
         | (Inr (deleted, errors), w1) \<Rightarrow>
             delete_batches c bucket_name object_keys batch_size rest
               (deleted_count + deleted) (all_errors @ errors) w1)"

definition delete_prefix ::
  "'st s3_client \<Rightarrow> string \<Rightarrow> string \<Rightarrow> bool \<Rightarrow> 'st world
   \<Rightarrow> ((py_error + nat \<times> nat \<times> string list) \<times> 'st world) option" where
  "delete_prefix c bucket_name prefix dry_run w =
     (case list_all_objects c bucket_name prefix w of
        None \<Rightarrow> None
      | Some (object_keys, w1) \<Rightarrow>
          (let total_objects = length object_keys
           in if total_objects = 0 then Some (Inr (0, 0, []), w1)
              else if dry_run then Some (Inr (total_objects, 0, []), w1)
              else let batch_size = 1000
                   in case delete_batches c bucket_name object_keys batch_size
                             (py_range 0 total_objects batch_size) 0 [] w1 of
                        (Inl e, w2) \<Rightarrow> Some (Inl e, w2)
                      | (Inr (deleted_count, all_errors), w2) \<Rightarrow>
                          Some (Inr (total_objects, deleted_count, all_errors), w2)))"

text \<open>
  \<open>delete_prefixes_concurrent\<close> hands every prefix to a thread pool. The model runs the
  tasks one after the other, in the order of the list, which is one of the schedules of
  the pool; the pool runs every task it was given, also when one of them raised, and
  the collecting loop then stores the results in the dictionary \<open>results\<close> until it
  meets a task that raised. A pool of no workers is refused by the pool's constructor.
  The dictionary is an association list: storing under a key that is present replaces
  its value in place.
\<close>

fun run_prefix_tasks ::
  "'st s3_client \<Rightarrow> string \<Rightarrow> string list \<Rightarrow> bool \<Rightarrow> 'st world
   \<Rightarrow> ((string \<times> (py_error + nat \<times> nat \<times> string list)) list \<times> 'st world) option" where
  "run_prefix_tasks c bucket_name [] dry_run w = Some ([], w)"
| "run_prefix_tasks c bucket_name (prefix # rest) dry_run w =
     (case delete_prefix c bucket_name prefix dry_run w of
        None \<Rightarrow> None
      | Some (r, w1) \<Rightarrow>
          (case run_prefix_tasks c bucket_name rest dry_run w1 of
             None \<Rightarrow> None
           | Some (rs, w2) \<Rightarrow> Some ((prefix, r) # rs, w2)))"

fun collect_results ::
  "(string \<times> (py_error + nat \<times> nat \<times> string list)) list
   \<Rightarrow> (string \<times> nat \<times> nat \<times> string list) list
   \<Rightarrow> py_error + (string \<times> nat \<times> nat \<times> string list) list" where
  "collect_results [] results = Inr results"
| "collect_results ((prefix, Inl e) # rest) results = Inl e"
| "collect_results ((prefix, Inr r) # rest) results =
     collect_results rest (AList.update prefix r results)"

definition delete_prefixes_concurrent ::
  "'st s3_client \<Rightarrow> string \<Rightarrow> string list \<Rightarrow> int \<Rightarrow> bool \<Rightarrow> 'st world
   \<Rightarrow> ((py_error + (string \<times> nat \<times> nat \<times> string list) list) \<times> 'st world) option" where
  "delete_prefixes_concurrent c bucket_name prefixes max_workers dry_run w =
     (if max_workers \<le> 0 then Some (Inl MaxWorkers, w)
      else case run_prefix_tasks c bucket_name prefixes dry_run w of
             None \<Rightarrow> None
           | Some (outs, w1) \<Rightarrow> Some (collect_results outs [], w1))"

definition reprompt_message :: string where
  "reprompt_message = ''Please type 'yes' or '' @ [CHR 0x27] @ ''no'' @ [CHR 0x27]"

fun get_confirmation :: "string list \<Rightarrow> 'st world \<Rightarrow> (py_error + bool) \<times> 'st world" where
  \<comment> \<open>the first argument is what remains of the standard input, line by line\<close>
  "get_confirmation [] w = (Inl EOFError, emit (InputCall None) w)"
| "get_confirmation (line # rest) w =
     (let w1 = emit (InputCall (Some line)) w;
          response = py_lower (py_strip line)
      in if response = ''yes'' then (Inr True, w1)
         else if response = ''no'' then (Inr False, w1)
         else get_confirmation rest (emit (Printed reprompt_message) w1))"

record args =
  arg_bucket_name :: string
  arg_workers :: int
  arg_dry_run :: bool
  arg_output_log :: "string option"

text \<open>
  The dictionary of sizes that \<open>load_dirty_paths\<close> returns holds whatever values the
  input file gives: a size is an integer (or a boolean, which Python counts as one), a
  float, or a value that is not a number (null, a string, an array, an object). The
  dictionary is an association list with one entry for each key.
\<close>

datatype size_value = IntSize int | FloatSize | NotANumber

text \<open>
  What lies outside the program is an argument of the model: whether the arithmetic and
  the formatting of numeric sizes in \<open>display_summary\<close> go through (they are floating-point
  computations, and raise on a number beyond the range of a float), whether
  \<open>create_s3_client\<close> returns a client, and whether the log file can be opened and
  written. \<open>None\<close> stands for a step that went through, \<open>Some\<close> for the exception that it
  raised.
\<close>

record env =
  summary_arithmetic :: "py_error option"
  client_creation :: "py_error option"
  log_write :: "string \<Rightarrow> py_error option"

definition display_summary ::
  "string list \<Rightarrow> (string \<times> size_value) list \<Rightarrow> string \<Rightarrow> bool \<Rightarrow> py_error option
   \<Rightarrow> py_error option" where
  \<comment> \<open>the exception \<open>display_summary\<close> ends with, \<open>None\<close> when it returns: with a
     non-empty dictionary it sums \<open>sizes.get(path, 0)\<close> over all the dirty paths, which
     raises on a size that is not a number, and formats the numbers\<close>
  "display_summary dirty_paths sizes bucket_name dry_run arithmetic =
     (if sizes \<noteq> [] then
        (if list_ex (\<lambda>path. map_of sizes path = Some NotANumber) dirty_paths
         then Some TypeError
         else arithmetic)
      else None)"

definition save_log :: "args \<Rightarrow> env \<Rightarrow> 'st world \<Rightarrow> py_error option \<times> 'st world" where
  \<comment> \<open>the \<open>if args.output_log\<close> block of \<open>main\<close>; what is written is not modelled\<close>
  "save_log a e w =
     (if py_truthy (arg_output_log a) then
        (case arg_output_log a of
           None \<Rightarrow> (None, w)
         | Some output_log \<Rightarrow>
             (case log_write e output_log of
                Some err \<Rightarrow> (Some err, w)
              | None \<Rightarrow> (None, emit (LogWritten output_log) w)))
      else (None, w))"

text \<open>
  \<open>main\<close> after the parsing of the command line. Reading the input file is outside the
  model: \<open>loaded\<close> is what \<open>load_dirty_paths\<close> returned, or the text of the exception it
  raised; the dirty paths are strings, as the resolver writes them. The client \<open>c\<close> is
  the one \<open>create_s3_client\<close> returns when it returns. The result is the exit status of
  the process and the world it leaves; an exception that nothing catches ends the
  process with status 1.
\<close>

definition main_process ::
  "args \<Rightarrow> string list \<Rightarrow> env \<Rightarrow> 'st s3_client \<Rightarrow> 'st world \<Rightarrow> (int \<times> 'st world) option" where
  \<comment> \<open>\<open>main\<close> from the creation of the client on\<close>
  "main_process a dirty_paths e c w =
     (case client_creation e of
        Some err \<Rightarrow> Some (1, w)
      | None \<Rightarrow>
          (let w1 = emit (ClientCreated (arg_workers a)) w
           in case delete_prefixes_concurrent c (arg_bucket_name a) dirty_paths
                     (arg_workers a) (arg_dry_run a) w1 of
                None \<Rightarrow> None
              | Some (Inl err, w2) \<Rightarrow> Some (1, w2)
              | Some (Inr results, w2) \<Rightarrow>
                  (let failed_prefixes =
                         filter (\<lambda>(prefix, total_objs, deleted, errors).
                                   errors \<noteq> [] \<or> (\<not> arg_dry_run a \<and> deleted < total_objs))
                           results
                   in case save_log a e w2 of
                        (Some err, w3) \<Rightarrow> Some (1, w3)
                      | (None, w3) \<Rightarrow>
                          if failed_prefixes \<noteq> [] \<and> \<not> arg_dry_run a then Some (1, w3)
                          else Some (0, w3))))"

definition main ::
  "args \<Rightarrow> string + string list \<times> (string \<times> size_value) list \<Rightarrow> string list \<Rightarrow> env
   \<Rightarrow> 'st s3_client \<Rightarrow> 'st world \<Rightarrow> (int \<times> 'st world) option" where
  "main a loaded stdin e c w =
     (case loaded of
        Inl msg \<Rightarrow> Some (1, emit (Printed (''Error loading input file: '' @ msg)) w)
      | Inr (dirty_paths, sizes) \<Rightarrow>
          if dirty_paths = [] then
            Some (0, emit (Printed ''No dirty paths found in input file. Nothing to delete.'') w)
          else
            (case display_summary dirty_paths sizes (arg_bucket_name a) (arg_dry_run a)
                    (summary_arithmetic e) of
               Some err \<Rightarrow> Some (1, w)
             | None \<Rightarrow>
                 if \<not> arg_dry_run a then
                   (case get_confirmation stdin w of
                      (Inl err, w1) \<Rightarrow> Some (1, w1)
                    | (Inr confirmed, w1) \<Rightarrow>
                        if \<not> confirmed then
                          Some (0, emit (Printed ''Deletion cancelled.'') w1)
                        else main_process a dirty_paths e c w1)
                 else main_process a dirty_paths e c w))"


section \<open>Two concrete stores\<close>

text \<open>
  \<open>bucket_client\<close> serves a bucket given by the list of its keys: a listing returns every
  key under the prefix in one page, and a bulk delete removes the keys it is given.
  \<open>failing_client\<close> answers the first page of a listing with one entry and a
  continuation token, raises on every later page, and raises on every bulk delete.
  In \<open>quiet_env\<close> nothing outside the program fails.
\<close>

definition quiet_env :: env where
  \<comment> \<open>an environment in which nothing outside the program fails\<close>
  "quiet_env =
     \<lparr>summary_arithmetic = None, client_creation = None, log_write = (\<lambda>path. None)\<rparr>"

definition bucket_client :: "string list s3_client" where
  "bucket_client =
     \<lparr>list_objects_v2 = (\<lambda>st params.
        Returned \<lparr>CommonPrefixes = None,
                  Contents = Some (map (\<lambda>k. \<lparr>Key = k, Size = Some 1\<rparr>)
                                     (filter (\<lambda>k. py_startswith k (Prefix params)) st)),
                  NextContinuationToken = None\<rparr>),
      delete_objects = (\<lambda>st bucket_name keys.
        (Returned \<lparr>Deleted = Some keys, Errors = None\<rparr>, filter (\<lambda>k. k \<notin> set keys) st))\<rparr>"

definition failing_client :: "unit s3_client" where
  "failing_client =
     \<lparr>list_objects_v2 = (\<lambda>st params.
        case ContinuationToken params of
          None \<Rightarrow>
            Returned \<lparr>CommonPrefixes = Some [''p/abc/''],
                      Contents = Some [\<lparr>Key = ''p/abc/f'', Size = Some 5\<rparr>],
                      NextContinuationToken = Some ''t1''\<rparr>
        | Some t \<Rightarrow> ClientError ''SlowDown''),
      delete_objects = (\<lambda>st bucket_name keys. (ClientError ''AccessDenied'', st))\<rparr>"


section \<open>Properties of the string functions\<close>

lemma py_split_Nil:
  "dropWhile (\<lambda>c. c \<noteq> sep) s = [] \<Longrightarrow> py_split sep s = [s]"
  by (subst py_split.simps) (simp del: dropWhile_eq_Nil_conv)

lemma py_split_Cons:
  "dropWhile (\<lambda>c. c \<noteq> sep) s = x # rest \<Longrightarrow>
   py_split sep s = takeWhile (\<lambda>c. c \<noteq> sep) s # py_split sep rest"
  by (subst py_split.simps) simp

lemma py_split_nonempty: "py_split sep s \<noteq> []"
  by (subst py_split.simps) (simp split: list.splits)

lemma py_split_no_sep: "sep \<notin> set s \<Longrightarrow> py_split sep s = [s]"
  by (rule py_split_Nil) auto

lemma rev_takeWhile_no_sep:
  "sep \<notin> set s \<Longrightarrow> rev (takeWhile (\<lambda>c. c \<noteq> sep) (rev s)) = s"
proof -
  assume "sep \<notin> set s"
  then have "\<forall>c\<in>set (rev s). c \<noteq> sep" by auto
  then have "takeWhile (\<lambda>c. c \<noteq> sep) (rev s) = rev s"
    by (rule takeWhile_eq_all_conv [THEN iffD2])
  then show ?thesis by (simp only: rev_rev_ident)
qed

lemma takeWhile_append_sep:
  "takeWhile (\<lambda>c. c \<noteq> sep) (xs @ sep # ys) = takeWhile (\<lambda>c. c \<noteq> sep) xs"
  by (induction xs) auto

lemma last_py_split:
  "last (py_split sep s) = rev (takeWhile (\<lambda>c. c \<noteq> sep) (rev s))"
proof (induction sep s rule: py_split.induct)
  case (1 sep s)
  show ?case
  proof (cases "dropWhile (\<lambda>c. c \<noteq> sep) s")
    case Nil
    then have "sep \<notin> set s" by auto
    then have "rev (takeWhile (\<lambda>c. c \<noteq> sep) (rev s)) = s"
      by (rule rev_takeWhile_no_sep)
    moreover have "py_split sep s = [s]" by (rule py_split_Nil [OF Nil])
    ultimately show ?thesis by (simp only: last.simps refl if_True)
  next
    case (Cons x rest)
    then have x: "x = sep"
      by (metis (mono_tags, lifting) hd_dropWhile list.sel(1) list.distinct(1))
    have s: "s = takeWhile (\<lambda>c. c \<noteq> sep) s @ sep # rest"
      using Cons x by (metis takeWhile_dropWhile_id)
    have "rev s = rev rest @ sep # rev (takeWhile (\<lambda>c. c \<noteq> sep) s)"
      by (subst s) simp
    then have "takeWhile (\<lambda>c. c \<noteq> sep) (rev s) = takeWhile (\<lambda>c. c \<noteq> sep) (rev rest)"
      by (simp add: takeWhile_append_sep)
    moreover have "last (py_split sep s) = last (py_split sep rest)"
      by (simp add: py_split_Cons [OF Cons] py_split_nonempty)
    ultimately show ?thesis
      using "1.IH" [OF Cons] by simp
  qed
qed

lemma py_split_single: "length (py_split sep s) < 2 \<Longrightarrow> sep \<notin> set s"
proof -
  assume len: "length (py_split sep s) < 2"
  show ?thesis
  proof (cases "dropWhile (\<lambda>c. c \<noteq> sep) s")
    case Nil
    then show ?thesis by auto
  next
    case (Cons x rest)
    have "length (py_split sep s) = Suc (length (py_split sep rest))"
      by (simp add: py_split_Cons [OF Cons])
    moreover have "length (py_split sep rest) \<noteq> 0"
      using py_split_nonempty by simp
    ultimately show ?thesis using len by simp
  qed
qed

lemma extract_uuid_suffix:
  "extract_uuid_from_path p = rev (takeWhile (\<lambda>c. c \<noteq> CHR ''/'') (rev p))"
proof (cases "length (py_split CHR ''/'' p) \<ge> 2")
  case True
  then show ?thesis by (simp add: extract_uuid_from_path_def last_py_split)
next
  case False
  then have "CHR ''/'' \<notin> set p" using py_split_single [of "CHR ''/''" p] by simp
  then have "rev (takeWhile (\<lambda>c. c \<noteq> CHR ''/'') (rev p)) = p"
    by (rule rev_takeWhile_no_sep)
  moreover have "extract_uuid_from_path p = p"
    using False by (simp add: extract_uuid_from_path_def)
  ultimately show ?thesis by (simp only:)
qed

lemma extract_next_level_eq: "extract_next_level_uuid_from_path p = extract_uuid_from_path p"
  by (simp add: extract_next_level_uuid_from_path_def extract_uuid_from_path_def)


section \<open>Identifier extraction\<close>

text \<open>
  Claim C7. For every path, identifier extraction returns the final \<open>/\<close>-delimited
  segment: the last element of the split, which is the longest suffix of the path without
  a \<open>/\<close>. A path without \<open>/\<close> is returned whole. Both scripts extract the same
  identifier. The three examples of the specification are included.
\<close>

theorem extract_uuid_final_segment:
  "extract_uuid_from_path p = last (py_split CHR ''/'' p)
   \<and> extract_uuid_from_path p = rev (takeWhile (\<lambda>c. c \<noteq> CHR ''/'') (rev p))
   \<and> (CHR ''/'' \<notin> set p \<longrightarrow> extract_uuid_from_path p = p)
   \<and> extract_next_level_uuid_from_path p = extract_uuid_from_path p
   \<and> extract_uuid_from_path ''top/leaf'' = ''leaf''
   \<and> extract_uuid_from_path ''top/mid/leaf'' = ''leaf''
   \<and> extract_uuid_from_path ''onlyone'' = ''onlyone''"
proof -
  have "extract_uuid_from_path p = last (py_split CHR ''/'' p)"
    by (simp add: extract_uuid_suffix last_py_split)
  moreover have "CHR ''/'' \<notin> set p \<longrightarrow> extract_uuid_from_path p = p"
    by (simp only: extract_uuid_suffix) (rule impI, rule rev_takeWhile_no_sep)
  ultimately show ?thesis
    by (simp add: extract_next_level_eq) (simp add: extract_uuid_suffix)
qed

theorem extract_uuid_final_segment_witness:
  "CHR ''/'' \<notin> set ''onlyone'' \<and> extract_uuid_from_path ''onlyone'' = ''onlyone''
   \<and> extract_next_level_uuid_from_path ''top/leaf/'' = []"
  using extract_uuid_final_segment [of "''onlyone''"]
    extract_uuid_final_segment [of "''top/leaf/''"]
  by (simp add: extract_uuid_suffix)


section \<open>Allow-list loading\<close>

lemma py_replace_1_prefix:
  "py_startswith s old \<Longrightarrow> py_replace_1 old new s = new @ drop (length old) s"
  by (cases s) (auto simp add: py_startswith_def)

lemma load_uuids_loop_eq:
  "load_uuids_loop ls U =
     U \<union> (\<lambda>t. if py_startswith t ''ch-s3-'' then drop (length ''ch-s3-'') t else t) `
           {t \<in> py_strip ` set ls. t \<noteq> []}"
proof (induction ls arbitrary: U)
  case Nil
  then show ?case by simp
next
  case (Cons raw rest)
  let ?f = "\<lambda>t. if py_startswith t ''ch-s3-'' then drop (length ''ch-s3-'') t else t"
  show ?case
  proof (cases "py_strip raw = []")
    case True
    then have "{t \<in> py_strip ` set (raw # rest). t \<noteq> []} =
               {t \<in> py_strip ` set rest. t \<noteq> []}"
      by auto
    moreover have "load_uuids_loop (raw # rest) U = load_uuids_loop rest U"
      using True by simp
    ultimately show ?thesis by (simp only: Cons.IH)
  next
    case False
    then have "{t \<in> py_strip ` set (raw # rest). t \<noteq> []} =
               insert (py_strip raw) {t \<in> py_strip ` set rest. t \<noteq> []}"
      by auto
    moreover have "load_uuids_loop (raw # rest) U =
                     load_uuids_loop rest (insert (?f (py_strip raw)) U)"
      using False by (simp add: Let_def py_replace_1_prefix)
    ultimately show ?thesis by (simp only: Cons.IH image_insert) blast
  qed
qed

lemma file_lines_concat: "concat (file_lines s) = s"
proof (induction s rule: file_lines.induct)
  case (1 s)
  show ?case
  proof (cases "s = []")
    case True
    then show ?thesis by (subst file_lines.simps) simp
  next
    case False
    show ?thesis
    proof (cases "dropWhile (\<lambda>c. c \<noteq> CHR 0x0A) s")
      case Nil
      with False show ?thesis
        by (subst file_lines.simps) (simp del: dropWhile_eq_Nil_conv)
    next
      case (Cons x rest)
      then have x: "x = CHR 0x0A"
        by (metis (mono_tags, lifting) hd_dropWhile list.sel(1) list.distinct(1))
      have s: "takeWhile (\<lambda>c. c \<noteq> CHR 0x0A) s @ CHR 0x0A # rest = s"
        using Cons x by (metis takeWhile_dropWhile_id)
      have "concat (file_lines s) =
              (takeWhile (\<lambda>c. c \<noteq> CHR 0x0A) s @ [CHR 0x0A]) @ concat (file_lines rest)"
        using False Cons by (subst file_lines.simps) simp
      also have "\<dots> = takeWhile (\<lambda>c. c \<noteq> CHR 0x0A) s @ CHR 0x0A # rest"
        using "1.IH" [OF False Cons] by simp
      finally show ?thesis using s by simp
    qed
  qed
qed


text \<open>
  Claim C8, amended. The loaded set is the image of the non-empty whitespace-trimmed
  lines of the file: every line is trimmed first, a line that is empty after trimming is
  skipped, and a trimmed line that starts with \<open>ch-s3-\<close> loses exactly that leading
  literal, any other trimmed line being loaded as trimmed. The lines are the pieces of
  the file between newlines. The result is a set, so repeated identifiers count once.
\<close>

theorem load_uuids_trimmed_lines:
  "load_non_terminated_uuids content =
     (\<lambda>t. if py_startswith t ''ch-s3-'' then drop (length ''ch-s3-'') t else t) `
       {t \<in> py_strip ` set (file_lines content). t \<noteq> []}
   \<and> concat (file_lines content) = content"
  by (simp add: load_non_terminated_uuids_def load_uuids_loop_eq file_lines_concat)

theorem load_uuids_trimmed_lines_witness:
  "{t \<in> py_strip ` set (file_lines (''ch-s3-abc123'' @ [CHR 0x0A, CHR 0x0A] @ ''abc123'')).
      t \<noteq> []} = {''ch-s3-abc123'', ''abc123''}
   \<and> load_non_terminated_uuids (''ch-s3-abc123'' @ [CHR 0x0A, CHR 0x0A] @ ''abc123'') =
       {''abc123''}"
proof -
  let ?X = "''ch-s3-abc123'' @ [CHR 0x0A, CHR 0x0A] @ ''abc123''"
  let ?f = "\<lambda>t. if py_startswith t ''ch-s3-'' then drop (length ''ch-s3-'') t else t"
  have lines: "{t \<in> py_strip ` set (file_lines ?X). t \<noteq> []} = {''ch-s3-abc123'', ''abc123''}"
    by (auto simp add: file_lines.simps py_strip_def py_isspace_def)
  have "load_non_terminated_uuids ?X = ?f ` {t \<in> py_strip ` set (file_lines ?X). t \<noteq> []}"
    using load_uuids_trimmed_lines [of ?X] by (rule conjunct1)
  then have "load_non_terminated_uuids ?X = ?f ` {''ch-s3-abc123'', ''abc123''}"
    by (simp only: lines)
  then have "load_non_terminated_uuids ?X = {''abc123''}"
    by (simp add: py_startswith_def)
  with lines show ?thesis by (simp only: simp_thms)
qed

text \<open>
  The claim as stated fails on a line with surrounding whitespace: the line
  \<open>" ch-s3-abc123"\<close> does not start with the literal, yet it is loaded as
  \<open>"abc123"\<close>, and the line \<open>"abc123 "\<close>, which has no literal, is not loaded unchanged.
\<close>

theorem load_uuids_whitespace_counterexample:
  "\<not> py_startswith '' ch-s3-abc123'' ''ch-s3-''
   \<and> load_non_terminated_uuids '' ch-s3-abc123'' = {''abc123''}
   \<and> load_non_terminated_uuids '' ch-s3-abc123'' \<noteq> {'' ch-s3-abc123''}
   \<and> load_non_terminated_uuids ''abc123 '' \<noteq> {''abc123 ''}"
  by (simp add: load_non_terminated_uuids_def file_lines.simps py_strip_def py_isspace_def
      py_startswith_def)


section \<open>Dirty-set resolver\<close>

lemma find_dirty_data_loop_eq:
  "find_dirty_data_loop ps A acc = acc @ filter (\<lambda>p. extract_uuid_from_path p \<notin> A) ps"
  by (induction ps arbitrary: acc) simp_all

lemma find_dirty_backup_loop_eq:
  "find_dirty_backup_loop ps A acc = acc @ filter (\<lambda>p. extract_uuid_from_path p \<notin> A) ps"
  by (induction ps arbitrary: acc) (simp_all add: extract_next_level_eq)

lemma data_main_dirty_paths_eq:
  "data_main_dirty_paths P A = sort (filter (\<lambda>p. extract_uuid_from_path p \<notin> A) P)"
  by (simp add: data_main_dirty_paths_def find_dirty_data_prefixes_def find_dirty_data_loop_eq)

lemma backup_main_dirty_paths_eq:
  "backup_main_dirty_paths P A = sort (filter (\<lambda>p. extract_uuid_from_path p \<notin> A) P)"
  by (simp add: backup_main_dirty_paths_def find_dirty_backup_prefixes_def
      find_dirty_backup_loop_eq)


text \<open>
  Claim C1, amended. For every list of discovered paths \<open>P\<close> and allow-list \<open>A\<close>, the
  output \<open>dirty_paths\<close> is the sorted list of the paths of \<open>P\<close> whose identifier is not
  in \<open>A\<close>, each as many times as it occurs in \<open>P\<close>: as a set it is exactly
  \<open>{p \<in> P. identifier p \<notin> A}\<close>. When \<open>P\<close> has no duplicate, the output has none and
  is the sorted, deduplicated list of that set. Both resolver scripts compute the same
  list.
\<close>

theorem dirty_paths_sorted_filter:
  "data_main_dirty_paths P A = sort (filter (\<lambda>p. extract_uuid_from_path p \<notin> A) P)
   \<and> backup_main_dirty_paths P A = data_main_dirty_paths P A
   \<and> sorted (data_main_dirty_paths P A)
   \<and> set (data_main_dirty_paths P A) = {p \<in> set P. extract_uuid_from_path p \<notin> A}
   \<and> mset (data_main_dirty_paths P A) =
       filter_mset (\<lambda>p. extract_uuid_from_path p \<notin> A) (mset P)
   \<and> (distinct P \<longrightarrow>
        distinct (data_main_dirty_paths P A)
        \<and> data_main_dirty_paths P A =
            sorted_list_of_set {p \<in> set P. extract_uuid_from_path p \<notin> A})"
proof -
  let ?Q = "\<lambda>p. extract_uuid_from_path p \<notin> A"
  have set_eq: "set (filter ?Q P) = {p \<in> set P. ?Q p}" by simp
  have "distinct P \<longrightarrow> sort (filter ?Q P) = sorted_list_of_set {p \<in> set P. ?Q p}"
  proof
    assume "distinct P"
    then have "remdups (filter ?Q P) = filter ?Q P" by (simp add: distinct_remdups_id)
    then have "sorted_list_of_set (set (filter ?Q P)) = sort (filter ?Q P)"
      by (simp only: sorted_list_of_set_sort_remdups)
    then show "sort (filter ?Q P) = sorted_list_of_set {p \<in> set P. ?Q p}"
      by (simp only: set_eq)
  qed
  then show ?thesis
    by (simp add: data_main_dirty_paths_eq backup_main_dirty_paths_eq)
qed

theorem dirty_paths_sorted_filter_witness:
  "distinct [''ch-s3-000/22222222-2222-2222-2222-222222222222'',
             ''ch-s3-000/11111111-1111-1111-1111-111111111111'']
   \<and> data_main_dirty_paths
        [''ch-s3-000/22222222-2222-2222-2222-222222222222'',
         ''ch-s3-000/11111111-1111-1111-1111-111111111111'']
        {''11111111-1111-1111-1111-111111111111''}
       = [''ch-s3-000/22222222-2222-2222-2222-222222222222'']"
  using dirty_paths_sorted_filter
    [of "[''ch-s3-000/22222222-2222-2222-2222-222222222222'',
          ''ch-s3-000/11111111-1111-1111-1111-111111111111'']"
        "{''11111111-1111-1111-1111-111111111111''}"]
  by (simp add: extract_uuid_suffix)

text \<open>
  The claim as stated fails when a path occurs twice among the discovered paths: the
  resolver sorts but never removes duplicates.
\<close>

theorem dirty_paths_duplicates_counterexample:
  "data_main_dirty_paths [''a/x'', ''a/x''] {} = [''a/x'', ''a/x'']
   \<and> \<not> distinct (data_main_dirty_paths [''a/x'', ''a/x''] {})
   \<and> data_main_dirty_paths [''a/x'', ''a/x''] {} \<noteq>
       sorted_list_of_set {p \<in> set [''a/x'', ''a/x'']. extract_uuid_from_path p \<notin> {}}"
  by (simp add: data_main_dirty_paths_eq)


section \<open>Properties of the listing loops and of the batch loop\<close>


lemma delete_objects_batch_over_limit:
  "length keys > 1000 \<Longrightarrow>
   delete_objects_batch c b keys w = (Inl (TooManyKeys (length keys)), w)"
  by (auto simp add: delete_objects_batch_def)

lemma delete_objects_batch_within_limit:
  "length keys \<le> 1000 \<Longrightarrow> \<exists>r w1. delete_objects_batch c b keys w = (Inr r, w1)"
  by (simp add: delete_objects_batch_def Let_def split: prod.splits)

lemma delete_batches_never_raise:
  "n \<le> 1000 \<Longrightarrow> \<exists>r w1. delete_batches c b keys n js d es w = (Inr r, w1)"
proof (induction js arbitrary: d es w)
  case Nil
  then show ?case by simp
next
  case (Cons j js)
  have "length (take n (drop j keys)) \<le> 1000" using Cons.prems by simp
  then obtain r w1 where r: "delete_objects_batch c b (take n (drop j keys)) w = (Inr r, w1)"
    using delete_objects_batch_within_limit by blast
  obtain dl errs where "r = (dl, errs)" by (cases r)
  with r Cons.IH [OF Cons.prems] show ?case by (simp add: Let_def)
qed







lemma raised_cases:
  "raised out \<Longrightarrow> (\<exists>e. out = ClientError e) \<or> (\<exists>e. out = OtherException e)"
  by (cases out) (simp_all add: raised_def)

lemma next_level_loop_error:
  "raised (list_objects_v2 c (store w) (listing_params b p (Some ''/'') tok))
   \<Longrightarrow> \<exists>w'. list_next_level_loop c b p acc tok w = Some (acc, w') \<and> store w' = store w"
  by (subst list_next_level_loop.simps)
     (auto simp add: Let_def emit_def dest!: raised_cases)

lemma sum_sizes_loop_error:
  "raised (list_objects_v2 c (store w) (listing_params b p None tok))
   \<Longrightarrow> \<exists>w'. sum_sizes_loop c b p acc tok w = Some (acc, w') \<and> store w' = store w"
  by (subst sum_sizes_loop.simps)
     (auto simp add: Let_def emit_def dest!: raised_cases)

lemma list_all_loop_frame:
  assumes "list_all_objects_loop c b p acc tok w = Some (keys, w1)"
  shows "store w1 = store w \<and>
         (\<exists>evs. trace w1 = trace w @ evs \<and> list_all (\<lambda>e. \<not> is_delete_call e) evs)"
proof -
  have "store (snd (keys, w1)) = store w \<and>
         (\<exists>evs. trace (snd (keys, w1)) = trace w @ evs \<and>
                list_all (\<lambda>e. \<not> is_delete_call e) evs)"
  proof (rule list_all_objects_loop.raw_induct
      [where P = "\<lambda>c b p acc tok w r. store (snd r) = store w \<and>
         (\<exists>evs. trace (snd r) = trace w @ evs \<and> list_all (\<lambda>e. \<not> is_delete_call e) evs)",
       OF _ assms])
    fix loop :: "'a s3_client \<Rightarrow> string \<Rightarrow> string \<Rightarrow> string list \<Rightarrow> string option \<Rightarrow> 'a world
                 \<Rightarrow> (string list \<times> 'a world) option"
      and c b p acc tok w r
    assume IH: "\<And>c b p acc tok w r. loop c b p acc tok w = Some r \<Longrightarrow>
             store (snd r) = store w \<and>
             (\<exists>evs. trace (snd r) = trace w @ evs \<and> list_all (\<lambda>e. \<not> is_delete_call e) evs)"
    assume body: "(let params = listing_params b p None tok;
          w1 = emit (ListCall params) w
      in case list_objects_v2 c (store w) params of
           Returned response \<Rightarrow>
             (let object_keys =
                    acc @
                      map Key (case Contents response of None \<Rightarrow> [] | Some objs \<Rightarrow> objs);
                  continuation_token = NextContinuationToken response
              in if \<not> py_truthy continuation_token then Some (object_keys, w1)
                 else loop c b p object_keys
                        continuation_token w1)
         | ClientError e \<Rightarrow>
             Some (acc,
                   emit (Printed (''Error listing objects under '' @ p @ '': '' @ e)) w1)
         | OtherException e \<Rightarrow>
             Some (acc,
                   emit (Printed (''Unexpected error listing '' @ p @ '': '' @ e)) w1)) = Some r"
    show "store (snd r) = store w \<and>
         (\<exists>evs. trace (snd r) = trace w @ evs \<and> list_all (\<lambda>e. \<not> is_delete_call e) evs)"
    proof (cases "list_objects_v2 c (store w) (listing_params b p None tok)")
      case (Returned response)
      show ?thesis
      proof (cases "py_truthy (NextContinuationToken response)")
        case True
        with Returned body have "loop c b p
            (acc @ map Key (case Contents response of None \<Rightarrow> [] | Some objs \<Rightarrow> objs))
            (NextContinuationToken response) (emit (ListCall (listing_params b p None tok)) w)
            = Some r"
          by (simp add: Let_def)
        from IH [OF this] show ?thesis
          by (auto simp add: emit_def is_delete_call_def)
      next
        case False
        with Returned body show ?thesis
          by (auto simp add: Let_def emit_def is_delete_call_def)
      qed
    next
      case (ClientError e)
      with body show ?thesis by (auto simp add: Let_def emit_def is_delete_call_def)
    next
      case (OtherException e)
      with body show ?thesis by (auto simp add: Let_def emit_def is_delete_call_def)
    qed
  qed
  then show ?thesis by simp
qed









section \<open>Deleting one prefix\<close>

lemma list_all_objects_frame:
  assumes "list_all_objects c b p w = Some (keys, w1)"
  shows "store w1 = store w"
    and "filter is_delete_call (trace w1) = filter is_delete_call (trace w)"
proof -
  from assms have fr: "store w1 = store w \<and>
      (\<exists>evs. trace w1 = trace w @ evs \<and> list_all (\<lambda>e. \<not> is_delete_call e) evs)"
    unfolding list_all_objects_def by (rule list_all_loop_frame)
  then show "store w1 = store w" by simp
  from fr obtain evs where evs: "trace w1 = trace w @ evs"
    "list_all (\<lambda>e. \<not> is_delete_call e) evs" by blast
  from evs(2) have "filter is_delete_call evs = []"
    by (induction evs) simp_all
  with evs(1) show "filter is_delete_call (trace w1) = filter is_delete_call (trace w)"
    by simp
qed

lemma bucket_listing:
  "list_all_objects bucket_client ''b'' ''p/'' \<lparr>store = [''p/a'', ''q/b'', ''p/c''], trace = []\<rparr> =
     Some ([''p/a'', ''p/c''],
           \<lparr>store = [''p/a'', ''q/b'', ''p/c''],
            trace = [ListCall (listing_params ''b'' ''p/'' None None)]\<rparr>)"
  by (simp add: list_all_objects_def list_all_objects_loop.simps bucket_client_def
      listing_params_def py_truthy_def py_startswith_def emit_def Let_def)


lemma delete_prefix_never_raises:
  "delete_prefix c b p dry w \<noteq> Some (Inl e, w2)"
proof (cases "list_all_objects c b p w")
  case None
  then show ?thesis by (simp add: delete_prefix_def)
next
  case (Some r)
  obtain keys w1 where r: "r = (keys, w1)" by (cases r)
  obtain res w3 where
    "delete_batches c b keys 1000 (py_range 0 (length keys) 1000) 0 [] w1 = (Inr res, w3)"
    using delete_batches_never_raise [of 1000 c b keys "py_range 0 (length keys) 1000" 0 "[]" w1]
    by auto
  with Some r show ?thesis
    by (cases res) (auto simp add: delete_prefix_def Let_def)
qed

text \<open>
  Claim C2. For every prefix and every state of the store, \<open>delete_prefix\<close> in dry-run
  mode returns exactly when the listing returns, and then its result is the number of
  listed keys as found-count, 0 as deleted-count and no error; the world it leaves is
  the one the listing left, so the store is unchanged and the run has issued no
  bulk-delete call.
\<close>

theorem dry_run_no_delete:
  "delete_prefix c b p True w =
     map_option (\<lambda>(keys, w1). (Inr (length keys, 0, []), w1)) (list_all_objects c b p w)
   \<and> (list_all_objects c b p w = Some (keys, w1) \<longrightarrow>
        delete_prefix c b p True w = Some (Inr (length keys, 0, []), w1)
        \<and> store w1 = store w
        \<and> filter is_delete_call (trace w1) = filter is_delete_call (trace w))"
proof -
  have eq: "delete_prefix c b p True w =
     map_option (\<lambda>(keys, w1). (Inr (length keys, 0, []), w1)) (list_all_objects c b p w)"
    by (cases "list_all_objects c b p w") (auto simp add: delete_prefix_def Let_def)
  show ?thesis
  proof (intro conjI impI)
    show "delete_prefix c b p True w =
     map_option (\<lambda>(keys, w1). (Inr (length keys, 0, []), w1)) (list_all_objects c b p w)"
      by (rule eq)
  next
    assume l: "list_all_objects c b p w = Some (keys, w1)"
    then show "delete_prefix c b p True w = Some (Inr (length keys, 0, []), w1)"
      by (simp add: eq)
    from l show "store w1 = store w" by (rule list_all_objects_frame)
    from l show "filter is_delete_call (trace w1) = filter is_delete_call (trace w)"
      by (rule list_all_objects_frame)
  qed
qed

theorem dry_run_no_delete_witness:
  "list_all_objects bucket_client ''b'' ''p/'' \<lparr>store = [''p/a'', ''q/b'', ''p/c''], trace = []\<rparr> =
     Some ([''p/a'', ''p/c''],
           \<lparr>store = [''p/a'', ''q/b'', ''p/c''],
            trace = [ListCall (listing_params ''b'' ''p/'' None None)]\<rparr>)
   \<and> delete_prefix bucket_client ''b'' ''p/'' True
         \<lparr>store = [''p/a'', ''q/b'', ''p/c''], trace = []\<rparr> =
       Some (Inr (2, 0, []),
             \<lparr>store = [''p/a'', ''q/b'', ''p/c''],
              trace = [ListCall (listing_params ''b'' ''p/'' None None)]\<rparr>)"
  using dry_run_no_delete
    [of bucket_client "''b''" "''p/''" "\<lparr>store = [''p/a'', ''q/b'', ''p/c''], trace = []\<rparr>"
        "[''p/a'', ''p/c'']"
        "\<lparr>store = [''p/a'', ''q/b'', ''p/c''],
          trace = [ListCall (listing_params ''b'' ''p/'' None None)]\<rparr>"]
    bucket_listing
  by simp



text \<open>
  Claim C9. \<open>delete_objects_batch\<close> raises on more than 1000 keys, without calling the
  store. Every slice that \<open>delete_prefix\<close> passes has at most 1000 keys, so the batch
  loop never raises, whatever the keys and the indices, and \<open>delete_prefix\<close> never
  ends with an exception.
\<close>

theorem over_limit_unreachable:
  "(1000 < length keys \<longrightarrow>
      delete_objects_batch c b keys w = (Inl (TooManyKeys (length keys)), w))
   \<and> length (take 1000 (drop i object_keys)) \<le> 1000
   \<and> (\<exists>r w1. delete_objects_batch c b (take 1000 (drop i object_keys)) w = (Inr r, w1))
   \<and> (\<exists>r w1. delete_batches c b object_keys 1000 js d es w = (Inr r, w1))
   \<and> delete_prefix c b p dry w \<noteq> Some (Inl e, w2)"
proof (intro conjI impI)
  assume "1000 < length keys"
  then show "delete_objects_batch c b keys w = (Inl (TooManyKeys (length keys)), w)"
    by (rule delete_objects_batch_over_limit)
next
  show "length (take 1000 (drop i object_keys)) \<le> 1000" by simp
  then show "\<exists>r w1. delete_objects_batch c b (take 1000 (drop i object_keys)) w = (Inr r, w1)"
    by (rule delete_objects_batch_within_limit)
  show "\<exists>r w1. delete_batches c b object_keys 1000 js d es w = (Inr r, w1)"
    by (rule delete_batches_never_raise) simp
  show "delete_prefix c b p dry w \<noteq> Some (Inl e, w2)"
    by (rule delete_prefix_never_raises)
qed

theorem over_limit_unreachable_witness:
  "1000 < length (replicate 1001 ''k'')
   \<and> delete_objects_batch bucket_client ''b'' (replicate 1001 ''k'') \<lparr>store = [], trace = []\<rparr> =
       (Inl (TooManyKeys 1001), \<lparr>store = [], trace = []\<rparr>)"
  using over_limit_unreachable
    [of "replicate 1001 ''k''" bucket_client "''b''" "\<lparr>store = [], trace = []\<rparr>"]
  by simp


section \<open>Listing errors\<close>

lemma next_level_loop_step:
  "list_objects_v2 c (store w) (listing_params b p (Some ''/'') tok) = Returned r
   \<Longrightarrow> py_truthy (NextContinuationToken r)
   \<Longrightarrow> list_next_level_loop c b p acc tok w =
       list_next_level_loop c b p
         (case CommonPrefixes r of None \<Rightarrow> acc
          | Some cps \<Rightarrow> fold (add_common_prefix p) cps acc)
         (NextContinuationToken r) (emit (ListCall (listing_params b p (Some ''/'') tok)) w)"
  by (subst list_next_level_loop.simps) (simp add: Let_def)

lemma sum_sizes_loop_step:
  "list_objects_v2 c (store w) (listing_params b p None tok) = Returned r
   \<Longrightarrow> py_truthy (NextContinuationToken r)
   \<Longrightarrow> sum_sizes_loop c b p n tok w =
       sum_sizes_loop c b p
         (fold (\<lambda>obj total_size. total_size + object_size obj)
            (case Contents r of None \<Rightarrow> [] | Some objs \<Rightarrow> objs) n)
         (NextContinuationToken r) (emit (ListCall (listing_params b p None tok)) w)"
  by (subst sum_sizes_loop.simps) (simp add: Let_def)

text \<open>
  Claim C6, amended. At every point of the pagination (whatever has been accumulated and
  whatever the continuation token), a listing call that raises ends the loop, and the
  function returns normally what it had accumulated before the failure, the store
  unchanged: no children and size 0 when the first call fails, the children and the
  sizes of the pages already read when a later call fails. A page that returns with a
  continuation token adds its entries to the accumulated value and the loop goes on.
  The error never leaves the function, so it aborts nothing.
\<close>

theorem listing_error_returns_accumulated:
  "(raised (list_objects_v2 c (store w) (listing_params b p (Some ''/'') tok)) \<longrightarrow>
      (\<exists>w1. list_next_level_loop c b p acc tok w = Some (acc, w1) \<and> store w1 = store w))
   \<and> (raised (list_objects_v2 c (store w) (listing_params b p None tok)) \<longrightarrow>
      (\<exists>w1. sum_sizes_loop c b p n tok w = Some (n, w1) \<and> store w1 = store w))
   \<and> (raised (list_objects_v2 c (store w) (listing_params b p (Some ''/'') None)) \<longrightarrow>
      (\<exists>w1. list_next_level_prefixes c b p w = Some ({}, w1) \<and> store w1 = store w))
   \<and> (raised (list_objects_v2 c (store w) (listing_params b p None None)) \<longrightarrow>
      (\<exists>w1. sum_sizes_in_prefix c b p w = Some (0, w1) \<and> store w1 = store w))
   \<and> (list_objects_v2 c (store w) (listing_params b p (Some ''/'') tok) = Returned r
        \<and> py_truthy (NextContinuationToken r) \<longrightarrow>
        list_next_level_loop c b p acc tok w =
          list_next_level_loop c b p
            (case CommonPrefixes r of None \<Rightarrow> acc
             | Some cps \<Rightarrow> fold (add_common_prefix p) cps acc)
            (NextContinuationToken r)
            (emit (ListCall (listing_params b p (Some ''/'') tok)) w))
   \<and> (list_objects_v2 c (store w) (listing_params b p None tok) = Returned r
        \<and> py_truthy (NextContinuationToken r) \<longrightarrow>
        sum_sizes_loop c b p n tok w =
          sum_sizes_loop c b p
            (fold (\<lambda>obj total_size. total_size + object_size obj)
               (case Contents r of None \<Rightarrow> [] | Some objs \<Rightarrow> objs) n)
            (NextContinuationToken r) (emit (ListCall (listing_params b p None tok)) w))"
  unfolding list_next_level_prefixes_def sum_sizes_in_prefix_def
  by (intro conjI impI next_level_loop_error sum_sizes_loop_error)
     (auto intro: next_level_loop_step sum_sizes_loop_step)

theorem listing_error_returns_accumulated_witness:
  "raised (list_objects_v2 failing_client (store \<lparr>store = (), trace = []\<rparr>)
             (listing_params ''b'' ''p/'' (Some ''/'') (Some ''t1'')))
   \<and> (\<exists>w1. list_next_level_loop failing_client ''b'' ''p/'' {''abc''} (Some ''t1'')
               \<lparr>store = (), trace = []\<rparr> = Some ({''abc''}, w1))
   \<and> raised (list_objects_v2 failing_client (store \<lparr>store = (), trace = []\<rparr>)
             (listing_params ''b'' ''p/'' None (Some ''t1'')))
   \<and> (\<exists>w1. sum_sizes_loop failing_client ''b'' ''p/'' 5 (Some ''t1'')
               \<lparr>store = (), trace = []\<rparr> = Some (5, w1))"
proof -
  have r1: "raised (list_objects_v2 failing_client (store \<lparr>store = (), trace = []\<rparr>)
             (listing_params ''b'' ''p/'' (Some ''/'') (Some ''t1'')))"
    by (simp add: raised_def failing_client_def listing_params_def py_truthy_def)
  have r2: "raised (list_objects_v2 failing_client (store \<lparr>store = (), trace = []\<rparr>)
             (listing_params ''b'' ''p/'' None (Some ''t1'')))"
    by (simp add: raised_def failing_client_def listing_params_def py_truthy_def)
  from listing_error_returns_accumulated
    [of failing_client "\<lparr>store = (), trace = []\<rparr>" "''b''" "''p/''" "Some ''t1''"
        "{''abc''}" 5]
    r1 r2
  show ?thesis by blast
qed

text \<open>
  The claim as stated fails when the error comes after the first page: the store below
  answers the first page with one entry and a token and raises on the second page, and
  the enumerator returns one child, the size aggregator 5 bytes.
\<close>

theorem listing_error_partial_counterexample:
  "raised (list_objects_v2 failing_client ()
             (listing_params ''b'' ''p/'' (Some ''/'') (Some ''t1'')))
   \<and> map_option fst (list_next_level_prefixes failing_client ''b'' ''p/''
                       \<lparr>store = (), trace = []\<rparr>) = Some {''abc''}
   \<and> map_option fst (list_next_level_prefixes failing_client ''b'' ''p/''
                       \<lparr>store = (), trace = []\<rparr>) \<noteq> Some {}
   \<and> raised (list_objects_v2 failing_client () (listing_params ''b'' ''p/'' None (Some ''t1'')))
   \<and> map_option fst (sum_sizes_in_prefix failing_client ''b'' ''p/''
                       \<lparr>store = (), trace = []\<rparr>) = Some 5
   \<and> map_option fst (sum_sizes_in_prefix failing_client ''b'' ''p/''
                       \<lparr>store = (), trace = []\<rparr>) \<noteq> Some 0"
  by (simp add: list_next_level_prefixes_def list_next_level_loop.simps
      sum_sizes_in_prefix_def sum_sizes_loop.simps failing_client_def raised_def
      listing_params_def py_truthy_def add_common_prefix_def py_endswith_def object_size_def
      emit_def Let_def)


section \<open>Properties of a run of the deletion engine\<close>

lemma get_confirmation_events:
  "get_confirmation stdin w = (r, w1) \<Longrightarrow>
   store w1 = store w \<and>
   (\<exists>evs. trace w1 = trace w @ evs
      \<and> list_all (\<lambda>e. \<not> is_store_call e) evs
      \<and> (r = Inr True \<longrightarrow>
           (\<exists>l. InputCall (Some l) \<in> set evs \<and> py_lower (py_strip l) = ''yes'')))"
proof (induction stdin arbitrary: w)
  case Nil
  then show ?case by (auto simp add: emit_def is_store_call_def)
next
  case (Cons line rest)
  let ?w1 = "emit (InputCall (Some line)) w"
  show ?case
  proof (cases "py_lower (py_strip line) = ''yes'' \<or> py_lower (py_strip line) = ''no''")
    case True
    with Cons.prems show ?thesis
      by (auto simp add: emit_def is_store_call_def Let_def split: if_splits)
  next
    case False
    with Cons.prems have
      "get_confirmation rest (emit (Printed reprompt_message) ?w1) = (r, w1)"
      by (simp add: Let_def)
    from Cons.IH [OF this] obtain evs where
      st: "store w1 = store w" and
      tr: "trace w1 = trace (emit (Printed reprompt_message) ?w1) @ evs" and
      ns: "list_all (\<lambda>e. \<not> is_store_call e) evs" and
      yes: "r = Inr True \<longrightarrow>
           (\<exists>l. InputCall (Some l) \<in> set evs \<and> py_lower (py_strip l) = ''yes'')"
      by (auto simp add: emit_def)
    let ?evs = "InputCall (Some line) # Printed reprompt_message # evs"
    have "trace w1 = trace w @ ?evs" using tr by (simp add: emit_def)
    moreover have "list_all (\<lambda>e. \<not> is_store_call e) ?evs"
      using ns by (simp add: is_store_call_def)
    moreover have "r = Inr True \<longrightarrow>
           (\<exists>l. InputCall (Some l) \<in> set ?evs \<and> py_lower (py_strip l) = ''yes'')"
      using yes by auto
    ultimately show ?thesis using st by blast
  qed
qed

lemma get_confirmation_scenario:
  assumes "\<forall>l\<in>set bad. py_lower (py_strip l) \<noteq> ''yes'' \<and> py_lower (py_strip l) \<noteq> ''no''"
    and "py_lower (py_strip ans) = ''yes'' \<or> py_lower (py_strip ans) = ''no''"
  shows "get_confirmation (bad @ ans # rest) w =
           (Inr (py_lower (py_strip ans) = ''yes''),
            w\<lparr>trace := trace w
                 @ concat (map (\<lambda>l. [InputCall (Some l), Printed reprompt_message]) bad)
                 @ [InputCall (Some ans)]\<rparr>)"
  using assms
proof (induction bad arbitrary: w)
  case Nil
  then show ?case by (auto simp add: emit_def Let_def)
next
  case (Cons l bad)
  then show ?case by (simp add: emit_def Let_def)
qed

lemma delete_objects_batch_ext:
  "delete_objects_batch c b keys w = (r, w1) \<Longrightarrow> \<exists>evs. trace w1 = trace w @ evs"
  by (auto simp add: delete_objects_batch_def emit_def Let_def split: if_splits prod.splits)

lemma delete_batches_ext:
  "delete_batches c b keys n js d es w = (r, w1) \<Longrightarrow> \<exists>evs. trace w1 = trace w @ evs"
proof (induction js arbitrary: d es w)
  case Nil
  then show ?case by simp
next
  case (Cons j js)
  obtain r0 w0 where step: "delete_objects_batch c b (take n (drop j keys)) w = (r0, w0)"
    by (cases "delete_objects_batch c b (take n (drop j keys)) w")
  from delete_objects_batch_ext [OF step] obtain evs0 where e0: "trace w0 = trace w @ evs0"
    by blast
  show ?case
  proof (cases r0)
    case (Inl e)
    with Cons.prems step e0 show ?thesis by (auto simp add: Let_def)
  next
    case (Inr res)
    obtain dl errs where res: "res = (dl, errs)" by (cases res)
    with Cons.prems step Inr have
      "delete_batches c b keys n js (d + dl) (es @ errs) w0 = (r, w1)"
      by (simp add: Let_def)
    from Cons.IH [OF this] obtain evs where "trace w1 = trace w0 @ evs" by blast
    with e0 show ?thesis by simp
  qed
qed

lemma delete_prefix_ext:
  assumes "delete_prefix c b p dry w = Some (r, w1)"
  shows "\<exists>evs. trace w1 = trace w @ evs"
proof (cases "list_all_objects c b p w")
  case None
  with assms show ?thesis by (simp add: delete_prefix_def)
next
  case (Some kw)
  obtain keys w0 where kw: "kw = (keys, w0)" by (cases kw)
  from Some kw have "list_all_objects_loop c b p [] None w = Some (keys, w0)"
    by (simp add: list_all_objects_def)
  from list_all_loop_frame [OF this] obtain evs0 where e0: "trace w0 = trace w @ evs0"
    by blast
  show ?thesis
  proof (cases "keys = [] \<or> dry")
    case True
    with assms Some kw have "w1 = w0"
      by (cases "keys = []") (auto simp add: delete_prefix_def Let_def)
    with e0 show ?thesis by blast
  next
    case False
    obtain r2 w2 where run:
      "delete_batches c b keys 1000 (py_range 0 (length keys) 1000) 0 [] w0 = (r2, w2)"
      by (cases "delete_batches c b keys 1000 (py_range 0 (length keys) 1000) 0 [] w0")
    from delete_batches_ext [OF run] obtain evs where e: "trace w2 = trace w0 @ evs" by blast
    from assms Some kw False run have "w1 = w2"
      by (cases r2) (auto simp add: delete_prefix_def Let_def split: prod.splits)
    with e e0 show ?thesis by simp
  qed
qed

lemma run_prefix_tasks_ext:
  "run_prefix_tasks c b ps dry w = Some (rs, w1) \<Longrightarrow> \<exists>evs. trace w1 = trace w @ evs"
proof (induction ps arbitrary: w rs)
  case Nil
  then show ?case by simp
next
  case (Cons p ps)
  from Cons.prems obtain r w0 rs0 where
    a: "delete_prefix c b p dry w = Some (r, w0)" and
    b: "run_prefix_tasks c b ps dry w0 = Some (rs0, w1)"
    by (auto split: option.splits)
  from delete_prefix_ext [OF a] Cons.IH [OF b] show ?case by auto
qed

lemma delete_prefixes_concurrent_ext:
  "delete_prefixes_concurrent c b ps mw dry w = Some (r, w1) \<Longrightarrow>
   \<exists>evs. trace w1 = trace w @ evs"
  by (auto simp add: delete_prefixes_concurrent_def split: if_splits option.splits
      dest: run_prefix_tasks_ext)

lemma save_log_ext:
  "save_log a e w = (r, w1) \<Longrightarrow> \<exists>evs. trace w1 = trace w @ evs"
  by (auto simp add: save_log_def emit_def split: if_splits option.splits)

lemma main_process_ext:
  assumes "main_process a ps e c w = Some (code, w1)"
  shows "\<exists>evs. trace w1 = trace w @ evs"
proof (cases "client_creation e")
  case (Some err)
  with assms show ?thesis by (simp add: main_process_def)
next
  case None
  let ?w0 = "emit (ClientCreated (arg_workers a)) w"
  from assms None obtain r w2 where
    run: "delete_prefixes_concurrent c (arg_bucket_name a) ps (arg_workers a)
            (arg_dry_run a) ?w0 = Some (r, w2)"
    by (auto simp add: main_process_def Let_def split: option.splits)
  from delete_prefixes_concurrent_ext [OF run] obtain evs where
    e2: "trace w2 = trace w @ (ClientCreated (arg_workers a) # evs)"
    by (auto simp add: emit_def)
  show ?thesis
  proof (cases r)
    case (Inl err)
    with assms None run have "w1 = w2" by (simp add: main_process_def Let_def)
    with e2 show ?thesis by blast
  next
    case (Inr results)
    obtain lr w3 where sl: "save_log a e w2 = (lr, w3)" by (cases "save_log a e w2")
    from save_log_ext [OF sl] obtain evs3 where e3: "trace w3 = trace w2 @ evs3" by blast
    from assms None run Inr sl have "w1 = w3"
      by (cases lr) (auto simp add: main_process_def Let_def split: if_splits)
    with e2 e3 show ?thesis by simp
  qed
qed

lemma no_store_call_split:
  assumes "list_all (\<lambda>e. \<not> is_store_call e) evs" "evs = pre @ ev # post"
  shows "\<not> is_store_call ev"
  using assms by (simp add: list_all_iff)

lemma gate_append:
  assumes "list_all (\<lambda>e. \<not> is_store_call e) cevs"
    and "x \<in> set cevs"
    and "cevs @ rest = pre @ ev # post"
    and "is_store_call ev"
  shows "x \<in> set pre"
proof -
  from assms(3) obtain us where
    "(cevs = pre @ us \<and> us @ rest = ev # post) \<or> (cevs @ us = pre \<and> rest = us @ ev # post)"
    by (auto simp add: append_eq_append_conv2)
  then show ?thesis
  proof
    assume a: "cevs = pre @ us \<and> us @ rest = ev # post"
    show ?thesis
    proof (cases us)
      case Nil
      with a assms(2) show ?thesis by simp
    next
      case (Cons u us')
      with a have "ev \<in> set cevs" by simp
      with assms(1,4) show ?thesis by (simp add: list_all_iff)
    qed
  next
    assume "cevs @ us = pre \<and> rest = us @ ev # post"
    with assms(2) show ?thesis by auto
  qed
qed

lemma main_live_gate:
  assumes live: "\<not> arg_dry_run a"
    and run: "main a loaded stdin e c w = Some (code, w1)"
  shows "\<exists>evs. trace w1 = trace w @ evs \<and>
           (\<forall>pre ev post. evs = pre @ ev # post \<and> is_store_call ev \<longrightarrow>
              (\<exists>l. InputCall (Some l) \<in> set pre \<and> py_lower (py_strip l) = ''yes''))"
proof -
  have quiet: "\<exists>evs. trace w1 = trace w @ evs \<and>
           (\<forall>pre ev post. evs = pre @ ev # post \<and> is_store_call ev \<longrightarrow>
              (\<exists>l. InputCall (Some l) \<in> set pre \<and> py_lower (py_strip l) = ''yes''))"
    if "trace w1 = trace w @ evs" "list_all (\<lambda>e. \<not> is_store_call e) evs" for evs
    using that no_store_call_split [of evs] by blast
  show ?thesis
  proof (cases loaded)
    case (Inl msg)
    with run have "trace w1 = trace w @ [Printed (''Error loading input file: '' @ msg)]"
      by (auto simp add: main_def emit_def)
    then show ?thesis by (rule quiet) (simp add: is_store_call_def)
  next
    case (Inr ld)
    obtain dirty_paths sizes where ld: "ld = (dirty_paths, sizes)" by (cases ld)
    show ?thesis
    proof (cases "dirty_paths = []")
      case True
      with run Inr ld have "trace w1 = trace w @
          [Printed ''No dirty paths found in input file. Nothing to delete.'']"
        by (auto simp add: main_def emit_def)
      then show ?thesis by (rule quiet) (simp add: is_store_call_def)
    next
      case False
      show ?thesis
      proof (cases "display_summary dirty_paths sizes (arg_bucket_name a) (arg_dry_run a)
                      (summary_arithmetic e)")
        case (Some err)
        with run Inr ld False have "w1 = w" by (simp add: main_def)
        then have "trace w1 = trace w @ []" by simp
        then show ?thesis by (rule quiet) simp
      next
        case None
        obtain r w0 where conf: "get_confirmation stdin w = (r, w0)"
          by (cases "get_confirmation stdin w")
        from get_confirmation_events [OF conf] obtain cevs where
          tr0: "trace w0 = trace w @ cevs" and
          ns: "list_all (\<lambda>e. \<not> is_store_call e) cevs" and
          yes: "r = Inr True \<longrightarrow>
             (\<exists>l. InputCall (Some l) \<in> set cevs \<and> py_lower (py_strip l) = ''yes'')"
          by blast
        show ?thesis
        proof (cases r)
          case (Inl err)
          with run Inr ld False None live conf have "w1 = w0" by (simp add: main_def)
          with tr0 have "trace w1 = trace w @ cevs" by simp
          then show ?thesis using ns by (rule quiet)
        next
          case ok: (Inr confirmed)
          show ?thesis
          proof (cases confirmed)
            case False
            with ok run Inr ld \<open>dirty_paths \<noteq> []\<close> None live conf
            have "w1 = emit (Printed ''Deletion cancelled.'') w0" by (simp add: main_def)
            with tr0 have "trace w1 = trace w @ (cevs @ [Printed ''Deletion cancelled.''])"
              by (simp add: emit_def)
            moreover have "list_all (\<lambda>e. \<not> is_store_call e)
                             (cevs @ [Printed ''Deletion cancelled.''])"
              using ns by (simp add: is_store_call_def)
            ultimately show ?thesis by (rule quiet)
          next
            case True
            with ok run Inr ld \<open>dirty_paths \<noteq> []\<close> None live conf
            have "main_process a dirty_paths e c w0 = Some (code, w1)"
              by (simp add: main_def)
            from main_process_ext [OF this] obtain rest where
              tr1: "trace w1 = trace w0 @ rest" by blast
            from yes ok True obtain l where
              l: "InputCall (Some l) \<in> set cevs" "py_lower (py_strip l) = ''yes''" by blast
            have "trace w1 = trace w @ (cevs @ rest)" using tr0 tr1 by simp
            moreover have
              "\<forall>pre ev post. cevs @ rest = pre @ ev # post \<and> is_store_call ev \<longrightarrow>
                (\<exists>l. InputCall (Some l) \<in> set pre \<and> py_lower (py_strip l) = ''yes'')"
              using gate_append [OF ns l(1)] l(2) by blast
            ultimately show ?thesis by blast
          qed
        qed
      qed
    qed
  qed
qed

lemma norm_maybe: "py_lower (py_strip ''maybe'') = ''maybe''"
  by (simp add: py_lower_def py_strip_def py_isspace_def py_lower_char_def)

lemma norm_no: "py_lower (py_strip ''no'') = ''no''"
  by (simp add: py_lower_def py_strip_def py_isspace_def py_lower_char_def)


lemma norm_YES: "py_lower (py_strip '' YES '') = ''yes''"
  by code_simp

text \<open>
  Claim C4. In live mode nothing reaches the store before the confirmation prompt has
  read an affirmative answer: in the events of any run, every call to the store (a
  listing or a bulk delete, hence every mutation and every per-prefix step) comes after
  an \<open>input\<close> that read \<open>yes\<close>. The two recognized answers are \<open>yes\<close> and \<open>no\<close>,
  compared after trimming and lower-casing. Every other input is followed by exactly one
  re-prompt message and another \<open>input\<close>. After a negative answer, which is read once the
  summary has been displayed, the run ends with exit status 0: the store is the one it
  started with, and the events of the run are the inputs, the re-prompts and the
  cancellation message, with no client created and no call to the store.
\<close>

theorem confirmation_gate:
  "(\<not> arg_dry_run a \<and> main a loaded stdin e c w = Some (code, w1) \<longrightarrow>
      (\<exists>evs. trace w1 = trace w @ evs \<and>
         (\<forall>pre ev post. evs = pre @ ev # post \<and> is_store_call ev \<longrightarrow>
            (\<exists>l. InputCall (Some l) \<in> set pre \<and> py_lower (py_strip l) = ''yes''))))
   \<and> ((\<forall>l\<in>set bad. py_lower (py_strip l) \<noteq> ''yes'' \<and> py_lower (py_strip l) \<noteq> ''no'')
        \<and> (py_lower (py_strip ans) = ''yes'' \<or> py_lower (py_strip ans) = ''no'') \<longrightarrow>
        get_confirmation (bad @ ans # rest) w =
          (Inr (py_lower (py_strip ans) = ''yes''),
           w\<lparr>trace := trace w
                @ concat (map (\<lambda>l. [InputCall (Some l), Printed reprompt_message]) bad)
                @ [InputCall (Some ans)]\<rparr>))
   \<and> (\<not> arg_dry_run a \<and> dirty_paths \<noteq> []
        \<and> display_summary dirty_paths sizes (arg_bucket_name a) (arg_dry_run a)
              (summary_arithmetic e) = None
        \<and> (\<forall>l\<in>set bad. py_lower (py_strip l) \<noteq> ''yes'' \<and> py_lower (py_strip l) \<noteq> ''no'')
        \<and> py_lower (py_strip ans) = ''no'' \<longrightarrow>
        main a (Inr (dirty_paths, sizes)) (bad @ ans # rest) e c w =
          Some (0, w\<lparr>trace := trace w
                      @ concat (map (\<lambda>l. [InputCall (Some l), Printed reprompt_message]) bad)
                      @ [InputCall (Some ans), Printed ''Deletion cancelled.'']\<rparr>))
   \<and> (dirty_paths \<noteq> []
        \<and> display_summary dirty_paths sizes (arg_bucket_name a) (arg_dry_run a)
              (summary_arithmetic e) = Some err \<longrightarrow>
        main a (Inr (dirty_paths, sizes)) stdin e c w = Some (1, w))"
proof (intro conjI impI)
  assume "\<not> arg_dry_run a \<and> main a loaded stdin e c w = Some (code, w1)"
  then show "\<exists>evs. trace w1 = trace w @ evs \<and>
         (\<forall>pre ev post. evs = pre @ ev # post \<and> is_store_call ev \<longrightarrow>
            (\<exists>l. InputCall (Some l) \<in> set pre \<and> py_lower (py_strip l) = ''yes''))"
    using main_live_gate by blast
next
  assume "(\<forall>l\<in>set bad. py_lower (py_strip l) \<noteq> ''yes'' \<and> py_lower (py_strip l) \<noteq> ''no'')
        \<and> (py_lower (py_strip ans) = ''yes'' \<or> py_lower (py_strip ans) = ''no'')"
  then show "get_confirmation (bad @ ans # rest) w =
          (Inr (py_lower (py_strip ans) = ''yes''),
           w\<lparr>trace := trace w
                @ concat (map (\<lambda>l. [InputCall (Some l), Printed reprompt_message]) bad)
                @ [InputCall (Some ans)]\<rparr>)"
    using get_confirmation_scenario by blast
next
  assume h: "\<not> arg_dry_run a \<and> dirty_paths \<noteq> []
        \<and> display_summary dirty_paths sizes (arg_bucket_name a) (arg_dry_run a)
              (summary_arithmetic e) = None
        \<and> (\<forall>l\<in>set bad. py_lower (py_strip l) \<noteq> ''yes'' \<and> py_lower (py_strip l) \<noteq> ''no'')
        \<and> py_lower (py_strip ans) = ''no''"
  then have "get_confirmation (bad @ ans # rest) w =
          (Inr (py_lower (py_strip ans) = ''yes''),
           w\<lparr>trace := trace w
                @ concat (map (\<lambda>l. [InputCall (Some l), Printed reprompt_message]) bad)
                @ [InputCall (Some ans)]\<rparr>)"
    using get_confirmation_scenario [of bad ans rest w] by blast
  moreover from h have "\<not> arg_dry_run a" "dirty_paths \<noteq> []"
    "py_lower (py_strip ans) = ''no''" by simp_all
  moreover from h have "display_summary dirty_paths sizes (arg_bucket_name a)
      (arg_dry_run a) (summary_arithmetic e) = None" by blast
  ultimately show "main a (Inr (dirty_paths, sizes)) (bad @ ans # rest) e c w =
          Some (0, w\<lparr>trace := trace w
                      @ concat (map (\<lambda>l. [InputCall (Some l), Printed reprompt_message]) bad)
                      @ [InputCall (Some ans), Printed ''Deletion cancelled.'']\<rparr>)"
    unfolding main_def by (simp add: emit_def)
next
  assume "dirty_paths \<noteq> []
        \<and> display_summary dirty_paths sizes (arg_bucket_name a) (arg_dry_run a)
              (summary_arithmetic e) = Some err"
  then show "main a (Inr (dirty_paths, sizes)) stdin e c w = Some (1, w)"
    by (simp add: main_def)
qed

theorem confirmation_gate_witness:
  "display_summary [''p/''] [] ''b'' False (summary_arithmetic quiet_env) = None
   \<and> main \<lparr>arg_bucket_name = ''b'', arg_workers = 10, arg_dry_run = False,
           arg_output_log = None\<rparr>
       (Inr ([''p/''], [])) [''maybe'', ''no''] quiet_env bucket_client
       \<lparr>store = [''p/a''], trace = []\<rparr> =
     Some (0, \<lparr>store = [''p/a''],
               trace = [InputCall (Some ''maybe''), Printed reprompt_message,
                        InputCall (Some ''no''), Printed ''Deletion cancelled.'']\<rparr>)"
  using confirmation_gate
    [of "\<lparr>arg_bucket_name = ''b'', arg_workers = 10, arg_dry_run = False,
          arg_output_log = None\<rparr>"
        "Inr ([''p/''], [])" "[]" quiet_env bucket_client
        "\<lparr>store = [''p/a''], trace = []\<rparr>"
        0 "\<lparr>store = [''p/a''], trace = []\<rparr>" "[''maybe'']" "''no''" "[]" "[''p/'']" "[]"]
  by (simp add: norm_maybe norm_no display_summary_def)

text \<open>
  Claim C10. When the loaded list of dirty paths is empty, the run ends with exit status
  0 right after loading, in live and in dry-run mode alike: the world it leaves is the
  one it started with plus one printed message, so there was no prompt, no client and
  no call to the store.
\<close>

theorem empty_input_exits:
  "main a (Inr ([], sizes)) stdin e c w =
     Some (0, w\<lparr>trace := trace w @
                  [Printed ''No dirty paths found in input file. Nothing to delete.'']\<rparr>)"
  by (simp add: main_def emit_def)

theorem empty_input_exits_witness:
  "main \<lparr>arg_bucket_name = ''b'', arg_workers = 10, arg_dry_run = False,
         arg_output_log = None\<rparr>
     (Inr ([], [])) [''yes''] quiet_env bucket_client \<lparr>store = [''p/a''], trace = []\<rparr> =
     Some (0, \<lparr>store = [''p/a''],
               trace = [Printed ''No dirty paths found in input file. Nothing to delete.'']\<rparr>)
   \<and> main \<lparr>arg_bucket_name = ''b'', arg_workers = 10, arg_dry_run = True,
           arg_output_log = None\<rparr>
     (Inr ([], [])) [''yes''] quiet_env bucket_client \<lparr>store = [''p/a''], trace = []\<rparr> =
     Some (0, \<lparr>store = [''p/a''],
               trace = [Printed ''No dirty paths found in input file. Nothing to delete.'']\<rparr>)"
  using empty_input_exits
    [of "\<lparr>arg_bucket_name = ''b'', arg_workers = 10, arg_dry_run = False,
          arg_output_log = None\<rparr>" "[]"
        "[''yes'']" quiet_env bucket_client "\<lparr>store = [''p/a''], trace = []\<rparr>"]
    empty_input_exits
    [of "\<lparr>arg_bucket_name = ''b'', arg_workers = 10, arg_dry_run = True,
          arg_output_log = None\<rparr>" "[]"
        "[''yes'']" quiet_env bucket_client "\<lparr>store = [''p/a''], trace = []\<rparr>"]
  by simp










end
